theory Spec2Isabelle
  imports Complex_Main "HOL-Library.Multiset" "HOL-Library.AList"
begin

section \<open>Data model\<close>

text \<open>
  The backend is JavaScript. Every rejected promise and thrown exception is a value
  \<open>Inl e\<close> of a sum type; a fulfilled promise is \<open>Inr v\<close>.
\<close>

datatype error = UpstreamFailure string | NotFound | StoreIOFailure string | TypeError

text \<open>
  The objects that \<open>buildMovieObject\<close> returns are plain JavaScript objects. They are
  modelled as key/value lists in insertion order, so that a key that is present with the
  value \<open>null\<close> differs from a key that is missing.
\<close>

datatype jsval = Undefined | Null | Num rat | Str string | Obj "(string \<times> jsval) list"

type_synonym jsobject = "(string \<times> jsval) list"

definition has_key :: "jsobject \<Rightarrow> string \<Rightarrow> bool" where
  "has_key obj k = (map_of obj k \<noteq> None)"

definition get_prop :: "jsobject \<Rightarrow> string \<Rightarrow> jsval" where
  \<comment> \<open>the property read \<open>obj.k\<close>: a missing key reads as \<open>undefined\<close>\<close>
  "get_prop obj k = (case map_of obj k of None \<Rightarrow> Undefined | Some v \<Rightarrow> v)"

text \<open>
  A record of the movie catalog, and a row of the table \<open>movies\<close> of the local store:
  the five fields that \<open>extractMovieInfo\<close> reads, and the popularity the store orders by.
\<close>

record catalog_record =
  movie_id :: int
  title :: string
  release_date :: string
  vote_average :: rat
  backdrop_path :: "string option"
  popularity :: rat

section \<open>The JavaScript engine: sorting with a comparator, random numbers\<close>

text \<open>
  \<open>Array.prototype.sort\<close> with a comparator sorts by a sequence of comparator calls that
  the engine chooses; which calls it makes after which answers, and how it moves the
  elements, is fixed by the engine and the length of the array. Such an algorithm is a
  decision tree: \<open>Compare\<close> calls the comparator and goes on in the first, second or third
  subtree when the answer is negative, zero or positive; \<open>Exchange i j\<close> exchanges the
  elements at two positions; \<open>Finish\<close> returns the array. The comparator of this program,
  \<open>() => 0.5 - Math.random()\<close>, ignores its two arguments, so the tree does not record
  which pair is compared.

  The comparator is not a consistent one, and for such a comparator the language leaves
  the order of the result to the engine. What the model takes from the engine is that its
  sort makes finitely many comparator calls and only moves the elements of the array
  around; the arrays of this program hold objects, none of them \<open>undefined\<close>. The plan
  itself is a parameter (\<open>array_sort\<close> below): what is proved holds for every engine.
\<close>

datatype plan = Finish | Exchange nat nat plan | Compare plan plan plan

definition exchange :: "nat \<Rightarrow> nat \<Rightarrow> 'a list \<Rightarrow> 'a list" where
  "exchange i j xs =
     (if i < length xs \<and> j < length xs then xs[i := xs ! j, j := xs ! i] else xs)"

definition comparator :: "rat \<Rightarrow> rat" where
  \<comment> \<open>\<open>() => 0.5 - Math.random()\<close>, where \<open>r\<close> is what \<open>Math.random()\<close> returned\<close>
  "comparator r = 1 / 2 - r"

text \<open>
  The environment of the backend: the remote services (each answers a request with a
  value or a failure), the local store, and the engine. The four functions of the catalog
  client come from \<open>fetchMovieInfo.js\<close>, which is not among the sources; they are
  parameters, and what is proved holds for every behaviour of theirs unless said otherwise.
  \<open>math_random k\<close> is the value of
  the \<open>k\<close>-th call of \<open>Math.random()\<close>, \<open>array_sort n\<close> the plan the engine follows on an
  array of length \<open>n\<close>, and \<open>settle_order\<close> the order in which the promises of a
  \<open>Promise.all\<close> settle. \<open>http_get url\<close> is the body of the response to a GET request, as
  text, or the failure of the request, and \<open>json_parse\<close> is the engine's \<open>JSON.parse\<close>,
  \<open>None\<close> where it throws.
\<close>

record env =
  http_get :: "string \<Rightarrow> error + string"
  json_parse :: "string \<Rightarrow> jsval option"
  getStreamingProvider :: "int \<Rightarrow> error + jsval"
  getMovieById :: "int \<Rightarrow> error + catalog_record"
  getTrendingMovies :: "error + catalog_record list"
  getTopRatedMovies :: "error + catalog_record list"
  db_open_error :: "error option"
  db_query_error :: "error option"
  movies_table :: "catalog_record list"
  math_random :: "nat \<Rightarrow> rat"
  array_sort :: "nat \<Rightarrow> plan"
  settle_order :: "nat list"

text \<open>The state of the process: how many random numbers were drawn, how many store
  connections are open.\<close>

record world =
  rng_calls :: nat
  open_connections :: nat

fun run_plan :: "plan \<Rightarrow> (nat \<Rightarrow> rat) \<Rightarrow> nat \<Rightarrow> 'a list \<Rightarrow> 'a list \<times> nat" where
  "run_plan Finish rnd k xs = (xs, k)"
| "run_plan (Exchange i j p) rnd k xs = run_plan p rnd k (exchange i j xs)"
| "run_plan (Compare neg zero pos) rnd k xs =
     (if comparator (rnd k) < 0 then run_plan neg rnd (Suc k) xs
      else if comparator (rnd k) = 0 then run_plan zero rnd (Suc k) xs
      else run_plan pos rnd (Suc k) xs)"

definition sort_random :: "env \<Rightarrow> nat \<Rightarrow> 'a list \<Rightarrow> 'a list \<times> nat" where
  \<comment> \<open>\<open>array.sort(() => 0.5 - Math.random())\<close>, from the \<open>k\<close>-th random number on\<close>
  "sort_random env k array = run_plan (array_sort env (length array)) (math_random env) k array"

text \<open>
  \<open>Promise.all\<close> fulfils with the values in the order of its input when every promise
  fulfils, and otherwise rejects with the reason of the promise that rejects first in
  time: the first rejected one in \<open>order\<close>, and when \<open>order\<close> names none of them, the first
  in the list.
\<close>

definition first_rejection :: "nat list \<Rightarrow> (error + 'a) list \<Rightarrow> error option" where
  "first_rejection order rs =
     (case filter (\<lambda>i. i < length rs \<and> isl (rs ! i)) order of
        i # _ \<Rightarrow> Some (projl (rs ! i))
      | [] \<Rightarrow> (case filter isl rs of r # _ \<Rightarrow> Some (projl r) | [] \<Rightarrow> None))"

definition promise_all :: "nat list \<Rightarrow> (error + 'a) list \<Rightarrow> error + 'a list" where
  "promise_all order rs =
     (case first_rejection order rs of Some e \<Rightarrow> Inl e | None \<Rightarrow> Inr (map projr rs))"

section \<open>fetchYouTubeInfo: \<open>getYoutubeId\<close>\<close>

definition uri_unreserved :: "char \<Rightarrow> bool" where
  "uri_unreserved c =
     (c \<in> set (''ABCDEFGHIJKLMNOPQRSTUVWXYZabcdefghijklmnopqrstuvwxyz0123456789-_.!~*()''
               @ [CHR 0x27]))"

definition hex_digit :: "nat \<Rightarrow> char" where
  "hex_digit n = ''0123456789ABCDEF'' ! (n mod 16)"

definition percent_encode :: "char \<Rightarrow> string" where
  "percent_encode c =
     (if uri_unreserved c then [c]
      else [CHR ''%'', hex_digit (of_char c div 16), hex_digit (of_char c mod 16)])"

definition encodeURIComponent :: "string \<Rightarrow> string" where
  \<comment> \<open>a string is the list of its UTF-8 bytes\<close>
  "encodeURIComponent s = concat (map percent_encode s)"

definition video_marker :: string where
  \<comment> \<open>the text \<open>"videoId":"\<close>, quotation marks included\<close>
  "video_marker = CHR 0x22 # ''videoId'' @ [CHR 0x22, CHR '':'', CHR 0x22]"

definition id_char :: "char \<Rightarrow> bool" where
  \<comment> \<open>the class \<open>[a-zA-Z0-9_-]\<close>\<close>
  "id_char c =
     (c \<in> set ''abcdefghijklmnopqrstuvwxyzABCDEFGHIJKLMNOPQRSTUVWXYZ0123456789_-'')"

definition match_here :: "string \<Rightarrow> string option" where
  \<comment> \<open>the pattern \<open>"videoId":"([a-zA-Z0-9_-]{11})"\<close> matched at the start of \<open>s\<close>;
      the result is the captured group\<close>
  "match_here s =
     (let rest = drop (length video_marker) s; tok = take 11 rest in
      if take (length video_marker) s = video_marker \<and> length tok = 11 \<and> list_all id_char tok
         \<and> take 1 (drop 11 rest) = [CHR 0x22]
      then Some tok else None)"

fun regex_match :: "string \<Rightarrow> string option" where
  \<comment> \<open>\<open>html.match(/.../)\<close>: the leftmost match, \<open>None\<close> for \<open>null\<close>\<close>
  "regex_match [] = match_here []"
| "regex_match (c # cs) =
     (case match_here (c # cs) of Some tok \<Rightarrow> Some tok | None \<Rightarrow> regex_match cs)"

definition contains_video_token :: "string \<Rightarrow> bool" where
  \<comment> \<open>the page has a substring that matches the pattern: the marker, eleven characters
      of the class, a quotation mark\<close>
  "contains_video_token html =
     (\<exists>pre tok post. html = pre @ video_marker @ tok @ [CHR 0x22] @ post
        \<and> length tok = 11 \<and> (\<forall>c \<in> set tok. id_char c))"

text \<open>
  \<open>axios.get(searchUrl)\<close> is called without a \<open>responseType\<close>, so axios applies its
  default transformation to the body: a body that is not empty and parses as JSON is
  replaced by the parsed value, and any other body stays the string it is.
\<close>

definition response_data :: "env \<Rightarrow> string \<Rightarrow> jsval" where
  \<comment> \<open>\<open>response.data\<close> for a response with this body\<close>
  "response_data env body =
     (if body = [] then Str body
      else case json_parse env body of None \<Rightarrow> Str body | Some v \<Rightarrow> v)"

definition getYoutubeId :: "env \<Rightarrow> string \<Rightarrow> error + string option" where
  \<comment> \<open>\<open>Inr None\<close> is the returned \<open>null\<close>; on data that is not a string, \<open>html.match\<close> is
      not a function (or \<open>html\<close> is \<open>null\<close>) and the call throws a \<open>TypeError\<close>\<close>
  "getYoutubeId env searchQuery =
     (let searchUrl = ''https://www.youtube.com/results?search_query=''
                      @ encodeURIComponent searchQuery in
      case http_get env searchUrl of
        Inl e \<Rightarrow> Inl e
      | Inr body \<Rightarrow>
          (case response_data env body of
             Str html \<Rightarrow>
               (case regex_match html of
                  None \<Rightarrow> Inr None
                | Some videoId \<Rightarrow> Inr (Some videoId))
           | _ \<Rightarrow> Inl TypeError))"

section \<open>movieBuilder\<close>

definition extractMovieInfo :: "catalog_record \<Rightarrow> jsobject" where
  "extractMovieInfo movie =
     [(''id'', Num (of_int (movie_id movie))),
      (''title'', Str (title movie)),
      (''release_date'', Str (release_date movie)),
      (''vote_average'', Num (vote_average movie)),
      (''backdrop_path'', case backdrop_path movie of None \<Rightarrow> Null | Some p \<Rightarrow> Str p)]"

text \<open>
  \<open>buildMovieObject\<close> awaits two calls. The model returns, beside the outcome, the events
  of the run in their order: a call is \<open>Started\<close> when the function is called (and sends
  its request), and \<open>Settled\<close> when the awaited promise settles.
\<close>

datatype call = GetYoutubeId string | GetStreamingProvider int

datatype event = Started call | Settled call

definition buildMovieObject :: "env \<Rightarrow> catalog_record \<Rightarrow> event list \<times> (error + jsobject)" where
  "buildMovieObject env movie =
     (let q = title movie @ '' trailer'' in
      case getYoutubeId env q of
        Inl e \<Rightarrow> ([Started (GetYoutubeId q), Settled (GetYoutubeId q)], Inl e)
      | Inr youtubeId \<Rightarrow>
          (case getStreamingProvider env (movie_id movie) of
             Inl e \<Rightarrow>
               ([Started (GetYoutubeId q), Settled (GetYoutubeId q),
                 Started (GetStreamingProvider (movie_id movie)),
                 Settled (GetStreamingProvider (movie_id movie))], Inl e)
           | Inr streamingProvider \<Rightarrow>
               ([Started (GetYoutubeId q), Settled (GetYoutubeId q),
                 Started (GetStreamingProvider (movie_id movie)),
                 Settled (GetStreamingProvider (movie_id movie))],
                Inr (AList.update ''streamingProvider'' streamingProvider
                      (AList.update ''youtubeId''
                         (case youtubeId of None \<Rightarrow> Null | Some v \<Rightarrow> Str v)
                         (extractMovieInfo movie))))))"

definition createMovieObjectFromID :: "env \<Rightarrow> int \<Rightarrow> error + jsobject" where
  "createMovieObjectFromID env tmdbId =
     (case getMovieById env tmdbId of
        Inl e \<Rightarrow> Inl e
      | Inr movie \<Rightarrow> snd (buildMovieObject env movie))"

definition getRandomItems :: "env \<Rightarrow> nat \<Rightarrow> 'a list \<Rightarrow> nat \<Rightarrow> 'a list \<times> nat" where
  "getRandomItems env k array cnt =
     (let (shuffled, k') = sort_random env k array in (take cnt shuffled, k'))"

definition shuffleArray :: "env \<Rightarrow> nat \<Rightarrow> 'a list \<Rightarrow> 'a list \<times> nat" where
  "shuffleArray env k array = sort_random env k array"

definition landing_selection ::
  "env \<Rightarrow> nat \<Rightarrow> catalog_record list \<Rightarrow> catalog_record list \<Rightarrow> catalog_record list \<times> nat" where
  \<comment> \<open>the middle of \<open>landingPageMovies\<close>: the two samples, combined and shuffled\<close>
  "landing_selection env k trending topRated =
     (let (trendingSample, k1) = getRandomItems env k trending 8;
          (topRatedSample, k2) = getRandomItems env k1 topRated 2;
          combined = trendingSample @ topRatedSample
      in shuffleArray env k2 combined)"

definition landingPageMovies :: "env \<Rightarrow> world \<Rightarrow> (error + jsobject list) \<times> world" where
  "landingPageMovies env w =
     (case getTrendingMovies env of
        Inl e \<Rightarrow> (Inl e, w)
      | Inr trending \<Rightarrow>
          (case getTopRatedMovies env of
             Inl e \<Rightarrow> (Inl e, w)
           | Inr topRated \<Rightarrow>
               (let (shuffled, k) = landing_selection env (rng_calls w) trending topRated in
                (promise_all (settle_order env)
                   (map (\<lambda>movie. snd (buildMovieObject env movie)) shuffled),
                 w\<lparr>rng_calls := k\<rparr>))))"

definition select_top_popular :: "catalog_record list \<Rightarrow> catalog_record list" where
  \<comment> \<open>\<open>SELECT * FROM movies ORDER BY popularity DESC LIMIT 1000\<close>\<close>
  "select_top_popular table = take 1000 (sort_key (\<lambda>r. - popularity r) table)"

text \<open>
  In \<open>getRandomPopularMovies\<close>, \<open>new Database(...)\<close> throws when the store cannot be
  opened, and then there is no connection; \<open>prepare(...).all()\<close> throws when the query
  fails. Both calls are synchronous. \<open>db.close()\<close> is taken to succeed.
\<close>

definition getRandomPopularMovies :: "env \<Rightarrow> world \<Rightarrow> (error + jsobject list) \<times> world" where
  "getRandomPopularMovies env w =
     (case db_open_error env of
        Some e \<Rightarrow> (Inl e, w)
      | None \<Rightarrow>
          (let w1 = w\<lparr>open_connections := Suc (open_connections w)\<rparr> in
           case db_query_error env of
             Some e \<Rightarrow> (Inl e, w1)
           | None \<Rightarrow>
               (let topMovies = select_top_popular (movies_table env);
                    (shuffled, k) = sort_random env (rng_calls w1) topMovies;
                    randomIds = map movie_id (take 10 shuffled);
                    w2 = w1\<lparr>rng_calls := k, open_connections := open_connections w1 - 1\<rparr>
                in (promise_all (settle_order env)
                      (map (\<lambda>i. createMovieObjectFromID env i) randomIds),
                    w2))))"

definition lookup_by_id :: "env \<Rightarrow> bool" where
  \<comment> \<open>Modelled from the spec: \<open>fetchMovieInfo.js\<close>, which defines \<open>getMovieById\<close>, is not
      among the sources. The spec calls it the lookup by id of the catalog client, returning
      a record of the catalog or failing: a record it returns has the id asked for.\<close>
  "lookup_by_id env = (\<forall>i m. getMovieById env i = Inr m \<longrightarrow> movie_id m = i)"

section \<open>Measuring the shuffle\<close>

text \<open>
  \<open>Math.random()\<close> is below \<open>0.5\<close> as often as above it, so the comparator answers
  positive and negative with equal probability. \<open>fair_draws L\<close> lists the \<open>2 ^ L\<close> equally
  likely ways the first \<open>L\<close> answers fall, \<open>1/4\<close> standing for a value below \<open>0.5\<close> and
  \<open>3/4\<close> for one above. An engine that makes at most \<open>L\<close> comparator calls on \<open>xs\<close> returns
  \<open>ys\<close> with probability \<open>outcome_count env L xs ys / 2 ^ L\<close>; a shuffle that is uniform over
  the permutations of \<open>xs\<close> (the elements distinct) returns each with probability
  \<open>1 / (length xs)!\<close>.
\<close>

definition draws_of :: "rat list \<Rightarrow> nat \<Rightarrow> rat" where
  "draws_of ds k = (if k < length ds then ds ! k else 0)"

definition fair_draws :: "nat \<Rightarrow> rat list list" where
  "fair_draws L = List.n_lists L [1 / 4, 3 / 4]"

definition shuffle_outcomes :: "env \<Rightarrow> nat \<Rightarrow> 'a list \<Rightarrow> 'a list list" where
  "shuffle_outcomes env L xs =
     map (\<lambda>ds. fst (shuffleArray (env\<lparr>math_random := draws_of ds\<rparr>) 0 xs)) (fair_draws L)"

definition outcome_count :: "env \<Rightarrow> nat \<Rightarrow> 'a list \<Rightarrow> 'a list \<Rightarrow> nat" where
  "outcome_count env L xs ys = count_list (shuffle_outcomes env L xs) ys"

definition uniform_shuffle_at :: "env \<Rightarrow> nat \<Rightarrow> 'a list \<Rightarrow> 'a list \<Rightarrow> bool" where
  "uniform_shuffle_at env L xs ys = (fact (length xs) * outcome_count env L xs ys = 2 ^ L)"

definition sample_outcomes :: "env \<Rightarrow> nat \<Rightarrow> 'a list \<Rightarrow> nat \<Rightarrow> 'a list list" where
  "sample_outcomes env L pool cnt =
     map (\<lambda>ds. fst (getRandomItems (env\<lparr>math_random := draws_of ds\<rparr>) 0 pool cnt)) (fair_draws L)"

definition uniform_sample_at :: "env \<Rightarrow> nat \<Rightarrow> 'a list \<Rightarrow> nat \<Rightarrow> 'a list \<Rightarrow> bool" where
  \<comment> \<open>a uniform draw of \<open>cnt\<close> elements in a row, without replacement, from \<open>n\<close> distinct
      elements gives each sequence with probability \<open>(n - cnt)! / n!\<close>\<close>
  "uniform_sample_at env L pool cnt ys =
     (fact (length pool) * count_list (sample_outcomes env L pool cnt) ys
        = fact (length pool - cnt) * 2 ^ L)"

text \<open>Two requests are issued concurrently when both are started before either settles.\<close>

fun is_started :: "event \<Rightarrow> bool" where
  "is_started (Started c) = True"
| "is_started (Settled c) = False"

definition issued_concurrently :: "event list \<Rightarrow> bool" where
  "issued_concurrently tr = (2 \<le> length (takeWhile is_started tr))"

section \<open>A concrete environment\<close>

text \<open>
  An engine that sorts by insertion: the element at position \<open>i\<close> moves left as long as
  the comparator answers negative.
\<close>

fun sift :: "nat \<Rightarrow> plan \<Rightarrow> plan" where
  "sift 0 rest = rest"
| "sift (Suc j) rest = Compare (Exchange j (Suc j) (sift j rest)) rest rest"

fun insertion_steps :: "nat \<Rightarrow> nat \<Rightarrow> plan" where
  "insertion_steps i 0 = Finish"
| "insertion_steps i (Suc m) = sift i (insertion_steps (Suc i) m)"

definition insertion_plan :: "nat \<Rightarrow> plan" where
  "insertion_plan n = insertion_steps 1 (n - 1)"

definition sample_movie :: "int \<Rightarrow> string \<Rightarrow> catalog_record" where
  "sample_movie i t =
     \<lparr>movie_id = i, title = t, release_date = ''1999-03-31'', vote_average = 8,
      backdrop_path = None, popularity = of_int i\<rparr>"

definition results_page :: string where
  "results_page = ''<script>{'' @ video_marker @ ''vKQi3bBA1y8'' @ [CHR 0x22] @ ''}</script>''"

definition blank_page :: string where
  "blank_page = ''<html><body>no results</body></html>''"

definition sample_json_parse :: "string \<Rightarrow> jsval option" where
  \<comment> \<open>\<open>JSON.parse\<close> on the bodies used here: the text \<open>{}\<close> parses to the empty object,
      the other bodies are markup and do not parse\<close>
  "sample_json_parse body = (if body = ''{}'' then Some (Obj []) else None)"

definition sample_env :: env where
  "sample_env =
     \<lparr>http_get = (\<lambda>url. Inr results_page),
      json_parse = sample_json_parse,
      getStreamingProvider = (\<lambda>i. Inr (Str ''Netflix'')),
      getMovieById = (\<lambda>i. Inr (sample_movie i ''Heat'')),
      getTrendingMovies = Inr [sample_movie 11 ''Alien'', sample_movie 12 ''Brazil''],
      getTopRatedMovies = Inr [sample_movie 13 ''Casablanca''],
      db_open_error = None,
      db_query_error = None,
      movies_table = [sample_movie 21 ''Dune'', sample_movie 22 ''Eraserhead''],
      math_random = (\<lambda>k. if even k then 3 / 4 else 1 / 4),
      array_sort = insertion_plan,
      settle_order = [1, 0, 2]\<rparr>"

definition flaky_env :: env where
  \<comment> \<open>the search for one title fails\<close>
  "flaky_env =
     sample_env\<lparr>http_get := \<lambda>url.
        if url = ''https://www.youtube.com/results?search_query=Brazil%20trailer''
        then Inl (UpstreamFailure ''network'') else Inr results_page\<rparr>"

definition broken_store_env :: env where
  \<comment> \<open>the table is missing, so the query throws\<close>
  "broken_store_env = sample_env\<lparr>db_query_error := Some (StoreIOFailure ''no such table: movies'')\<rparr>"

definition json_body_env :: env where
  \<comment> \<open>the search answers with the body \<open>{}\<close>\<close>
  "json_body_env = sample_env\<lparr>http_get := \<lambda>url. Inr ''{}''\<rparr>"

definition closed_store_env :: env where
  \<comment> \<open>the store cannot be opened\<close>
  "closed_store_env =
     sample_env\<lparr>db_open_error := Some (StoreIOFailure ''unable to open database file''),
                db_query_error := Some (StoreIOFailure ''no such table: movies'')\<rparr>"

definition flaky_store :: env where
  \<comment> \<open>the catalog does not know the movie with id 21\<close>
  "flaky_store =
     sample_env\<lparr>getMovieById := \<lambda>i. if i = 21 then Inl NotFound else Inr (sample_movie i ''Heat'')\<rparr>"

definition idle :: world where
  "idle = \<lparr>rng_calls = 0, open_connections = 0\<rparr>"

section \<open>Facts about the engine and \<open>Promise.all\<close>\<close>

lemma mset_exchange: "mset (exchange i j xs) = mset xs"
  by (simp add: exchange_def mset_swap)

lemma mset_run_plan: "mset (fst (run_plan p rnd k xs)) = mset xs"
  by (induction p arbitrary: k xs) (simp_all add: mset_exchange)

lemma exchange_map: "exchange i j (map f xs) = map f (exchange i j xs)"
  by (simp add: exchange_def map_update)

lemma run_plan_map:
  "run_plan p rnd k (map f xs) = (map f (fst (run_plan p rnd k xs)), snd (run_plan p rnd k xs))"
  by (induction p arbitrary: k xs) (simp_all add: exchange_map)

lemma mset_sort_random: "mset (fst (sort_random env k xs)) = mset xs"
  by (simp add: sort_random_def mset_run_plan)

lemma length_sort_random: "length (fst (sort_random env k xs)) = length xs"
  using mset_sort_random [of env k xs] by (metis size_mset)

lemma set_sort_random: "set (fst (sort_random env k xs)) = set xs"
  using mset_sort_random [of env k xs] by (metis set_mset_mset)

lemma first_rejection_None: "first_rejection order rs = None \<longleftrightarrow> (\<forall>r \<in> set rs. \<not> isl r)"
proof
  assume "first_rejection order rs = None"
  then have "filter isl rs = []"
    by (auto simp: first_rejection_def split: list.splits)
  then show "\<forall>r \<in> set rs. \<not> isl r"
    by (simp add: filter_empty_conv)
next
  assume ok: "\<forall>r \<in> set rs. \<not> isl r"
  then have "filter isl rs = []" by (simp add: filter_empty_conv)
  moreover from ok have "filter (\<lambda>i. i < length rs \<and> isl (rs ! i)) order = []"
    by (auto simp: filter_empty_conv)
  ultimately show "first_rejection order rs = None"
    by (simp add: first_rejection_def)
qed

lemma first_rejection_Some: 
  assumes "first_rejection order rs = Some e"
  shows "Inl e \<in> set rs"
proof (cases "filter (\<lambda>i. i < length rs \<and> isl (rs ! i)) order")
  case Nil
  with assms obtain r rest where f: "filter isl rs = r # rest" and e: "e = projl r"
    by (auto simp: first_rejection_def split: list.splits)
  from f have "r \<in> set (filter isl rs)" by simp
  then have "r \<in> set rs" "isl r" by auto
  with e show ?thesis by (cases r) auto
next
  case (Cons i rest)
  with assms have e: "e = projl (rs ! i)"
    by (simp add: first_rejection_def)
  from Cons have "i \<in> set (filter (\<lambda>i. i < length rs \<and> isl (rs ! i)) order)" by simp
  then have "i < length rs" "isl (rs ! i)" by auto
  with e show ?thesis by (cases "rs ! i") (auto simp: in_set_conv_nth)
qed

lemma promise_all_Inr:
  "promise_all order rs = Inr vs \<longleftrightarrow> (\<forall>r \<in> set rs. \<not> isl r) \<and> vs = map projr rs"
proof (cases "first_rejection order rs")
  case None
  then show ?thesis
    using first_rejection_None [of order rs] by (auto simp: promise_all_def)
next
  case (Some e)
  then have "\<not> (\<forall>r \<in> set rs. \<not> isl r)"
    using first_rejection_None [of order rs] by simp
  with Some show ?thesis by (simp add: promise_all_def)
qed

lemma promise_all_Inl: "promise_all order rs = Inl e \<Longrightarrow> Inl e \<in> set rs"
  by (auto simp: promise_all_def split: option.splits dest: first_rejection_Some)

lemma promise_all_rejects:
  assumes "r \<in> set rs" "isl r"
  shows "\<exists>e. promise_all order rs = Inl e \<and> Inl e \<in> set rs"
proof (cases "promise_all order rs")
  case (Inl e)
  then show ?thesis by (auto dest: promise_all_Inl)
next
  case (Inr vs)
  with assms show ?thesis by (auto simp: promise_all_Inr)
qed

section \<open>The enriched object\<close>

lemma buildMovieObject_Inr:
  assumes "snd (buildMovieObject env movie) = Inr obj"
  shows "\<exists>y sp. getYoutubeId env (title movie @ '' trailer'') = Inr y
           \<and> getStreamingProvider env (movie_id movie) = Inr sp
           \<and> obj = AList.update ''streamingProvider'' sp
                    (AList.update ''youtubeId'' (case y of None \<Rightarrow> Null | Some v \<Rightarrow> Str v)
                       (extractMovieInfo movie))"
  using assms by (auto simp: buildMovieObject_def Let_def split: sum.splits)

lemma buildMovieObject_id:
  assumes "snd (buildMovieObject env movie) = Inr obj"
  shows "get_prop obj ''id'' = Num (of_int (movie_id movie))"
proof -
  from buildMovieObject_Inr [OF assms] obtain y sp where
    obj: "obj = AList.update ''streamingProvider'' sp
                    (AList.update ''youtubeId'' (case y of None \<Rightarrow> Null | Some v \<Rightarrow> Str v)
                       (extractMovieInfo movie))"
    by blast
  show ?thesis
    by (simp add: obj get_prop_def update_conv' extractMovieInfo_def)
qed

text \<open>
  C1. When enrichment succeeds, the object that \<open>buildMovieObject\<close> returns has under the
  key \<open>id\<close> the id of the record it was given; and when a batch of enrichments joined by
  \<open>Promise.all\<close> succeeds, the object at each index carries the id of the record at that
  index.
\<close>

theorem enriched_id_is_record_id:
  "(snd (buildMovieObject env movie) = Inr obj \<longrightarrow>
      get_prop obj ''id'' = Num (of_int (movie_id movie))) \<and>
   (promise_all order (map (\<lambda>m. snd (buildMovieObject env m)) movies) = Inr objs \<longrightarrow>
      map (\<lambda>obj. get_prop obj ''id'') objs = map (\<lambda>m. Num (of_int (movie_id m))) movies)"
proof (intro conjI impI)
  assume "snd (buildMovieObject env movie) = Inr obj"
  then show "get_prop obj ''id'' = Num (of_int (movie_id movie))"
    by (rule buildMovieObject_id)
next
  assume "promise_all order (map (\<lambda>m. snd (buildMovieObject env m)) movies) = Inr objs"
  then have ok: "\<forall>m \<in> set movies. \<not> isl (snd (buildMovieObject env m))"
    and objs: "objs = map (\<lambda>m. projr (snd (buildMovieObject env m))) movies"
    by (auto simp: promise_all_Inr comp_def)
  have "get_prop (projr (snd (buildMovieObject env m))) ''id'' = Num (of_int (movie_id m))"
    if "m \<in> set movies" for m
  proof -
    from ok that obtain obj' where "snd (buildMovieObject env m) = Inr obj'"
      by (cases "snd (buildMovieObject env m)") auto
    then show ?thesis by (simp add: buildMovieObject_id)
  qed
  then show "map (\<lambda>obj. get_prop obj ''id'') objs = map (\<lambda>m. Num (of_int (movie_id m))) movies"
    by (simp add: objs comp_def)
qed

lemmas eval_simps =
  buildMovieObject_def getYoutubeId_def sample_env_def sample_movie_def results_page_def
  match_here_def video_marker_def id_char_def encodeURIComponent_def percent_encode_def
  uri_unreserved_def hex_digit_def extractMovieInfo_def Let_def promise_all_def
  first_rejection_def get_prop_def response_data_def sample_json_parse_def

theorem enriched_id_is_record_id_witness:
  "snd (buildMovieObject sample_env (sample_movie 5 ''Solaris'')) =
     Inr (projr (snd (buildMovieObject sample_env (sample_movie 5 ''Solaris'')))) \<and>
   get_prop (projr (snd (buildMovieObject sample_env (sample_movie 5 ''Solaris'')))) ''id'' = Num 5 \<and>
   promise_all [1, 0]
     (map (\<lambda>m. snd (buildMovieObject sample_env m)) [sample_movie 7 ''Ran'', sample_movie 9 ''Ikiru''])
     = Inr (projr (promise_all [1, 0]
     (map (\<lambda>m. snd (buildMovieObject sample_env m)) [sample_movie 7 ''Ran'', sample_movie 9 ''Ikiru'']))) \<and>
   map (\<lambda>obj. get_prop obj ''id'') (projr (promise_all [1, 0]
     (map (\<lambda>m. snd (buildMovieObject sample_env m)) [sample_movie 7 ''Ran'', sample_movie 9 ''Ikiru''])))
     = [Num 7, Num 9]"
proof -
  have h1: "snd (buildMovieObject sample_env (sample_movie 5 ''Solaris'')) =
     Inr (projr (snd (buildMovieObject sample_env (sample_movie 5 ''Solaris''))))"
    by (simp add: eval_simps)
  have h2: "promise_all [1, 0]
     (map (\<lambda>m. snd (buildMovieObject sample_env m)) [sample_movie 7 ''Ran'', sample_movie 9 ''Ikiru''])
     = Inr (projr (promise_all [1, 0]
     (map (\<lambda>m. snd (buildMovieObject sample_env m)) [sample_movie 7 ''Ran'', sample_movie 9 ''Ikiru''])))"
    by (simp add: eval_simps)
  from enriched_id_is_record_id [of sample_env "sample_movie 5 ''Solaris''"
      "projr (snd (buildMovieObject sample_env (sample_movie 5 ''Solaris'')))" "[1, 0]"
      "[sample_movie 7 ''Ran'', sample_movie 9 ''Ikiru'']"
      "projr (promise_all [1, 0]
     (map (\<lambda>m. snd (buildMovieObject sample_env m)) [sample_movie 7 ''Ran'', sample_movie 9 ''Ikiru'']))"]
    h1 h2
  show ?thesis by (simp add: sample_movie_def)
qed

text \<open>
  C10. When enrichment succeeds, the returned object has the keys \<open>youtubeId\<close> and
  \<open>streamingProvider\<close>; when the trailer lookup found no video id, the key \<open>youtubeId\<close> is
  there and its value is \<open>null\<close>.
\<close>

theorem enriched_has_both_keys:
  assumes "snd (buildMovieObject env movie) = Inr obj"
  shows "has_key obj ''youtubeId'' \<and> has_key obj ''streamingProvider'' \<and>
         (getYoutubeId env (title movie @ '' trailer'') = Inr None \<longrightarrow>
            map_of obj ''youtubeId'' = Some Null)"
proof -
  from buildMovieObject_Inr [OF assms] obtain y sp where
    y: "getYoutubeId env (title movie @ '' trailer'') = Inr y" and
    obj: "obj = AList.update ''streamingProvider'' sp
                    (AList.update ''youtubeId'' (case y of None \<Rightarrow> Null | Some v \<Rightarrow> Str v)
                       (extractMovieInfo movie))"
    by blast
  show ?thesis
    by (auto simp: obj y has_key_def update_conv')
qed

theorem enriched_has_both_keys_witness:
  "snd (buildMovieObject (sample_env\<lparr>http_get := \<lambda>url. Inr blank_page\<rparr>) (sample_movie 5 ''Solaris''))
     = Inr [(''id'', Num 5), (''title'', Str ''Solaris''), (''release_date'', Str ''1999-03-31''),
            (''vote_average'', Num 8), (''backdrop_path'', Null), (''youtubeId'', Null),
            (''streamingProvider'', Str ''Netflix'')] \<and>
   getYoutubeId (sample_env\<lparr>http_get := \<lambda>url. Inr blank_page\<rparr>)
     (title (sample_movie 5 ''Solaris'') @ '' trailer'') = Inr None \<and>
   has_key [(''id'', Num 5), (''title'', Str ''Solaris''), (''release_date'', Str ''1999-03-31''),
            (''vote_average'', Num 8), (''backdrop_path'', Null), (''youtubeId'', Null),
            (''streamingProvider'', Str ''Netflix'')] ''youtubeId''"
proof -
  have h: "snd (buildMovieObject (sample_env\<lparr>http_get := \<lambda>url. Inr blank_page\<rparr>) (sample_movie 5 ''Solaris''))
     = Inr [(''id'', Num 5), (''title'', Str ''Solaris''), (''release_date'', Str ''1999-03-31''),
            (''vote_average'', Num 8), (''backdrop_path'', Null), (''youtubeId'', Null),
            (''streamingProvider'', Str ''Netflix'')]"
    by (simp add: eval_simps blank_page_def)
  have m: "getYoutubeId (sample_env\<lparr>http_get := \<lambda>url. Inr blank_page\<rparr>)
     (title (sample_movie 5 ''Solaris'') @ '' trailer'') = Inr None"
    by (simp add: eval_simps blank_page_def)
  from enriched_has_both_keys [OF h] h m show ?thesis by simp
qed

section \<open>The video id\<close>

lemma match_here_Some:
  "match_here s = Some tok \<longleftrightarrow>
     (\<exists>post. s = video_marker @ tok @ [CHR 0x22] @ post \<and> length tok = 11 \<and> (\<forall>c \<in> set tok. id_char c))"
proof
  assume a: "match_here s = Some tok"
  define rest where "rest = drop (length video_marker) s"
  from a have m: "take (length video_marker) s = video_marker"
    and t: "tok = take 11 rest" and l: "length tok = 11" and c: "list_all id_char tok"
    and q: "take 1 (drop 11 rest) = [CHR 0x22]"
    by (auto simp: match_here_def Let_def rest_def split: if_splits)
  from q obtain post where p: "drop 11 rest = CHR 0x22 # post"
    by (cases "drop 11 rest") auto
  have "s = take (length video_marker) s @ rest"
    by (simp add: rest_def)
  also have "rest = take 11 rest @ drop 11 rest" by simp
  finally have "s = video_marker @ tok @ [CHR 0x22] @ post"
    using m t p by simp
  with l c show "\<exists>post. s = video_marker @ tok @ [CHR 0x22] @ post \<and> length tok = 11 \<and> (\<forall>c \<in> set tok. id_char c)"
    by (auto simp: list_all_iff)
next
  assume "\<exists>post. s = video_marker @ tok @ [CHR 0x22] @ post \<and> length tok = 11 \<and> (\<forall>c \<in> set tok. id_char c)"
  then show "match_here s = Some tok"
    by (auto simp: match_here_def Let_def list_all_iff)
qed

lemma regex_match_None:
  "regex_match s = None \<longleftrightarrow> (\<forall>pre suf. s = pre @ suf \<longrightarrow> match_here suf = None)"
proof (induction s)
  case Nil
  then show ?case by simp
next
  case (Cons c cs)
  show ?case
  proof
    assume a: "regex_match (c # cs) = None"
    then have h: "match_here (c # cs) = None" and r: "regex_match cs = None"
      by (auto split: option.splits)
    show "\<forall>pre suf. c # cs = pre @ suf \<longrightarrow> match_here suf = None"
    proof (intro allI impI)
      fix pre suf assume e: "c # cs = pre @ suf"
      show "match_here suf = None"
      proof (cases pre)
        case Nil
        with e h show ?thesis by simp
      next
        case (Cons p pre')
        with e have "cs = pre' @ suf" by simp
        with r Cons.IH show ?thesis by blast
      qed
    qed
  next
    assume a: "\<forall>pre suf. c # cs = pre @ suf \<longrightarrow> match_here suf = None"
    then have "match_here (c # cs) = None" by (metis append_Nil)
    moreover have "\<forall>pre suf. cs = pre @ suf \<longrightarrow> match_here suf = None"
      using a by (metis append_Cons)
    ultimately show "regex_match (c # cs) = None"
      using Cons.IH by simp
  qed
qed

lemma regex_match_None_iff: "regex_match html = None \<longleftrightarrow> \<not> contains_video_token html"
proof -
  have "contains_video_token html \<longleftrightarrow> (\<exists>pre suf. html = pre @ suf \<and> match_here suf \<noteq> None)"
  proof
    assume "contains_video_token html"
    then obtain pre tok post where "html = pre @ video_marker @ tok @ [CHR 0x22] @ post"
      "length tok = 11" "\<forall>c \<in> set tok. id_char c"
      unfolding contains_video_token_def by blast
    then have "html = pre @ (video_marker @ tok @ [CHR 0x22] @ post)"
      "match_here (video_marker @ tok @ [CHR 0x22] @ post) = Some tok"
      by (auto simp: match_here_Some)
    then show "\<exists>pre suf. html = pre @ suf \<and> match_here suf \<noteq> None"
      by (metis option.distinct(1))
  next
    assume "\<exists>pre suf. html = pre @ suf \<and> match_here suf \<noteq> None"
    then obtain pre suf tok where "html = pre @ suf" "match_here suf = Some tok"
      by auto
    then show "contains_video_token html"
      unfolding contains_video_token_def match_here_Some by blast
  qed
  then show ?thesis by (auto simp: regex_match_None)
qed

text \<open>
  C9, as amended. When the data of the response is a string that contains no substring
  matching the pattern, \<open>getYoutubeId\<close> returns \<open>null\<close> and does not throw; when the
  request fails, the failure propagates. A returned \<open>null\<close> is therefore never a failed
  request.
\<close>

theorem getYoutubeId_absent_or_failure:
  "(http_get env (''https://www.youtube.com/results?search_query='' @ encodeURIComponent q)
      = Inr body \<and> response_data env body = Str html \<and> \<not> contains_video_token html
      \<longrightarrow> getYoutubeId env q = Inr None) \<and>
   (http_get env (''https://www.youtube.com/results?search_query='' @ encodeURIComponent q)
      = Inl e \<longrightarrow> getYoutubeId env q = Inl e)"
proof (intro conjI impI)
  assume a: "http_get env (''https://www.youtube.com/results?search_query='' @ encodeURIComponent q)
      = Inr body \<and> response_data env body = Str html \<and> \<not> contains_video_token html"
  then have "regex_match html = None"
    by (simp add: regex_match_None_iff)
  with a show "getYoutubeId env q = Inr None"
    by (simp add: getYoutubeId_def)
next
  assume "http_get env (''https://www.youtube.com/results?search_query='' @ encodeURIComponent q)
      = Inl e"
  then show "getYoutubeId env q = Inl e"
    by (simp add: getYoutubeId_def)
qed

theorem getYoutubeId_absent_or_failure_witness:
  "http_get (sample_env\<lparr>http_get := \<lambda>url. Inr blank_page\<rparr>)
      (''https://www.youtube.com/results?search_query='' @ encodeURIComponent ''Heat trailer'')
      = Inr blank_page \<and>
   response_data (sample_env\<lparr>http_get := \<lambda>url. Inr blank_page\<rparr>) blank_page = Str blank_page \<and>
   \<not> contains_video_token blank_page \<and>
   getYoutubeId (sample_env\<lparr>http_get := \<lambda>url. Inr blank_page\<rparr>) ''Heat trailer'' = Inr None \<and>
   http_get (sample_env\<lparr>http_get := \<lambda>url. Inl (UpstreamFailure ''timeout'')\<rparr>)
      (''https://www.youtube.com/results?search_query='' @ encodeURIComponent ''Heat trailer'')
      = Inl (UpstreamFailure ''timeout'') \<and>
   getYoutubeId (sample_env\<lparr>http_get := \<lambda>url. Inl (UpstreamFailure ''timeout'')\<rparr>) ''Heat trailer''
      = Inl (UpstreamFailure ''timeout'')"
proof -
  have n: "\<not> contains_video_token blank_page"
    unfolding regex_match_None_iff [symmetric]
    by (simp add: blank_page_def match_here_def video_marker_def)
  have g: "http_get (sample_env\<lparr>http_get := \<lambda>url. Inr blank_page\<rparr>)
      (''https://www.youtube.com/results?search_query='' @ encodeURIComponent ''Heat trailer'')
      = Inr blank_page"
    by simp
  have d: "response_data (sample_env\<lparr>http_get := \<lambda>url. Inr blank_page\<rparr>) blank_page = Str blank_page"
    by (simp add: response_data_def sample_env_def sample_json_parse_def blank_page_def)
  have f: "http_get (sample_env\<lparr>http_get := \<lambda>url. Inl (UpstreamFailure ''timeout'')\<rparr>)
      (''https://www.youtube.com/results?search_query='' @ encodeURIComponent ''Heat trailer'')
      = Inl (UpstreamFailure ''timeout'')"
    by simp
  from getYoutubeId_absent_or_failure [of "sample_env\<lparr>http_get := \<lambda>url. Inr blank_page\<rparr>"
      "''Heat trailer''" blank_page blank_page] n g d
  have 1: "getYoutubeId (sample_env\<lparr>http_get := \<lambda>url. Inr blank_page\<rparr>) ''Heat trailer'' = Inr None"
    by blast
  from getYoutubeId_absent_or_failure [of "sample_env\<lparr>http_get := \<lambda>url. Inl (UpstreamFailure ''timeout'')\<rparr>"
      "''Heat trailer''" _ _ "UpstreamFailure ''timeout''"] f
  have 2: "getYoutubeId (sample_env\<lparr>http_get := \<lambda>url. Inl (UpstreamFailure ''timeout'')\<rparr>) ''Heat trailer''
      = Inl (UpstreamFailure ''timeout'')"
    by blast
  from n g d f 1 2 show ?thesis by blast
qed

text \<open>
  C9, as stated, fails: the body \<open>{}\<close> contains no substring that matches the pattern,
  and it parses as JSON, so the data of the response is an object and not a string, and
  \<open>getYoutubeId\<close> throws a \<open>TypeError\<close>.
\<close>

theorem getYoutubeId_throws_on_json_body:
  "http_get json_body_env
      (''https://www.youtube.com/results?search_query='' @ encodeURIComponent ''Heat trailer'')
      = Inr ''{}'' \<and>
   \<not> contains_video_token ''{}'' \<and>
   getYoutubeId json_body_env ''Heat trailer'' = Inl TypeError"
proof -
  have "\<not> contains_video_token ''{}''"
    unfolding regex_match_None_iff [symmetric]
    by (simp add: match_here_def video_marker_def)
  moreover have "getYoutubeId json_body_env ''Heat trailer'' = Inl TypeError"
    by (simp add: getYoutubeId_def json_body_env_def sample_env_def response_data_def
        sample_json_parse_def)
  ultimately show ?thesis by (simp add: json_body_env_def)
qed

section \<open>Sampling and the landing page\<close>

lemma getRandomItems_take:
  "fst (getRandomItems env k xs cnt) = take cnt (fst (sort_random env k xs))"
  by (simp add: getRandomItems_def split: prod.splits)

lemma length_getRandomItems:
  "length (fst (getRandomItems env k xs cnt)) = min cnt (length xs)"
  by (simp add: getRandomItems_take length_sort_random min.commute)

lemma mset_getRandomItems_all:
  "length xs \<le> cnt \<Longrightarrow> mset (fst (getRandomItems env k xs cnt)) = mset xs"
  by (simp add: getRandomItems_take length_sort_random mset_sort_random)

lemma mset_getRandomItems_sub: "mset (fst (getRandomItems env k xs cnt)) \<subseteq># mset xs"
proof -
  have "mset (take cnt (fst (sort_random env k xs))) \<subseteq># mset (fst (sort_random env k xs))"
    by (metis append_take_drop_id mset_append mset_subset_eq_add_left)
  then show ?thesis by (simp add: getRandomItems_take mset_sort_random)
qed

lemma set_getRandomItems: "set (fst (getRandomItems env k xs cnt)) \<subseteq> set xs"
  using mset_getRandomItems_sub [of env k xs cnt] by (metis set_mset_mono set_mset_mset)

lemma mset_shuffleArray: "mset (fst (shuffleArray env k xs)) = mset xs"
  by (simp add: shuffleArray_def mset_sort_random)

lemma landing_selection_eq:
  "fst (landing_selection env k trending topRated) =
     fst (shuffleArray env (snd (getRandomItems env (snd (getRandomItems env k trending 8)) topRated 2))
            (fst (getRandomItems env k trending 8)
             @ fst (getRandomItems env (snd (getRandomItems env k trending 8)) topRated 2)))"
  by (simp add: landing_selection_def Let_def split: prod.splits)

lemma mset_landing_selection:
  "mset (fst (landing_selection env k trending topRated)) =
     mset (fst (getRandomItems env k trending 8))
     + mset (fst (getRandomItems env (snd (getRandomItems env k trending 8)) topRated 2))"
  by (simp add: landing_selection_eq mset_shuffleArray)

lemma length_landing_selection:
  "length (fst (landing_selection env k trending topRated)) =
     min 8 (length trending) + min 2 (length topRated)"
proof -
  have "size (mset (fst (landing_selection env k trending topRated))) =
     min 8 (length trending) + min 2 (length topRated)"
    unfolding mset_landing_selection by (simp add: length_getRandomItems)
  then show ?thesis by simp
qed

lemma landingPageMovies_eq:
  assumes "getTrendingMovies env = Inr trending" "getTopRatedMovies env = Inr topRated"
  shows "fst (landingPageMovies env w) =
     promise_all (settle_order env)
       (map (\<lambda>movie. snd (buildMovieObject env movie))
          (fst (landing_selection env (rng_calls w) trending topRated)))"
  using assms by (simp add: landingPageMovies_def split: prod.splits)

lemmas engine_simps =
  landing_selection_def getRandomItems_def shuffleArray_def sort_random_def insertion_plan_def
  exchange_def comparator_def landingPageMovies_def idle_def

lemma sample_selection:
  "fst (landing_selection sample_env 0 [sample_movie 11 ''Alien'', sample_movie 12 ''Brazil'']
          [sample_movie 13 ''Casablanca''])
     = [sample_movie 12 ''Brazil'', sample_movie 13 ''Casablanca'', sample_movie 11 ''Alien'']"
  by (simp add: engine_simps sample_env_def)

lemma flaky_selection:
  "fst (landing_selection flaky_env 0 [sample_movie 11 ''Alien'', sample_movie 12 ''Brazil'']
          [sample_movie 13 ''Casablanca''])
     = [sample_movie 12 ''Brazil'', sample_movie 13 ''Casablanca'', sample_movie 11 ''Alien'']"
  by (simp add: engine_simps flaky_env_def sample_env_def)

text \<open>
  C4. When the two fetches and every enrichment succeed, \<open>landingPageMovies\<close> returns
  exactly \<open>min(8, |trending|) + min(2, |topRated|)\<close> objects. A sample has
  \<open>min(count, |pool|)\<close> elements, and from a pool that has no more elements than asked for
  it is all of the pool.
\<close>

theorem landing_page_count:
  assumes "getTrendingMovies env = Inr trending" "getTopRatedMovies env = Inr topRated"
    and "\<forall>m \<in> set (fst (landing_selection env (rng_calls w) trending topRated)).
            \<not> isl (snd (buildMovieObject env m))"
  shows "(\<exists>objs. fst (landingPageMovies env w) = Inr objs \<and>
            length objs = min 8 (length trending) + min 2 (length topRated)) \<and>
         length (fst (getRandomItems env k pool cnt)) = min cnt (length pool) \<and>
         (length pool \<le> cnt \<longrightarrow> mset (fst (getRandomItems env k pool cnt)) = mset pool)"
proof -
  let ?sel = "fst (landing_selection env (rng_calls w) trending topRated)"
  let ?rs = "map (\<lambda>movie. snd (buildMovieObject env movie)) ?sel"
  from assms(3) have "\<forall>r \<in> set ?rs. \<not> isl r" by simp
  then have "promise_all (settle_order env) ?rs = Inr (map projr ?rs)"
    by (simp add: promise_all_Inr)
  then have "fst (landingPageMovies env w) = Inr (map projr ?rs)"
    by (simp add: landingPageMovies_eq [OF assms(1,2)])
  moreover have "length (map projr ?rs) = min 8 (length trending) + min 2 (length topRated)"
    by (simp add: length_landing_selection)
  ultimately show ?thesis
    by (simp add: length_getRandomItems mset_getRandomItems_all)
qed

theorem landing_page_count_witness:
  "getTrendingMovies sample_env = Inr [sample_movie 11 ''Alien'', sample_movie 12 ''Brazil''] \<and>
   getTopRatedMovies sample_env = Inr [sample_movie 13 ''Casablanca''] \<and>
   fst (landing_selection sample_env (rng_calls idle)
          [sample_movie 11 ''Alien'', sample_movie 12 ''Brazil''] [sample_movie 13 ''Casablanca''])
     = [sample_movie 12 ''Brazil'', sample_movie 13 ''Casablanca'', sample_movie 11 ''Alien''] \<and>
   \<not> isl (snd (buildMovieObject sample_env (sample_movie 12 ''Brazil''))) \<and>
   \<not> isl (snd (buildMovieObject sample_env (sample_movie 13 ''Casablanca''))) \<and>
   \<not> isl (snd (buildMovieObject sample_env (sample_movie 11 ''Alien''))) \<and>
   (\<exists>objs. fst (landingPageMovies sample_env idle) = Inr objs \<and> length objs = 3) \<and>
   length (fst (getRandomItems sample_env 0 [4, 5, 6 :: nat] 2)) = 2 \<and>
   mset (fst (getRandomItems sample_env 0 [4, 5, 6 :: nat] 8)) = mset [4, 5, 6]"
proof -
  have t: "getTrendingMovies sample_env = Inr [sample_movie 11 ''Alien'', sample_movie 12 ''Brazil'']"
    and r: "getTopRatedMovies sample_env = Inr [sample_movie 13 ''Casablanca'']"
    by (simp_all add: sample_env_def)
  have k: "rng_calls idle = 0" by (simp add: idle_def)
  have s: "fst (landing_selection sample_env (rng_calls idle)
          [sample_movie 11 ''Alien'', sample_movie 12 ''Brazil''] [sample_movie 13 ''Casablanca''])
     = [sample_movie 12 ''Brazil'', sample_movie 13 ''Casablanca'', sample_movie 11 ''Alien'']"
    unfolding k by (rule sample_selection)
  have b: "\<not> isl (snd (buildMovieObject sample_env (sample_movie 12 ''Brazil'')))"
    and c: "\<not> isl (snd (buildMovieObject sample_env (sample_movie 13 ''Casablanca'')))"
    and a: "\<not> isl (snd (buildMovieObject sample_env (sample_movie 11 ''Alien'')))"
    by (simp_all add: eval_simps)
  have ok: "\<forall>m \<in> set (fst (landing_selection sample_env (rng_calls idle)
                      [sample_movie 11 ''Alien'', sample_movie 12 ''Brazil'']
                      [sample_movie 13 ''Casablanca''])).
       \<not> isl (snd (buildMovieObject sample_env m))"
    unfolding s using a b c by simp
  from landing_page_count [OF t r ok, of 0 "[4, 5, 6 :: nat]" 2]
       landing_page_count [OF t r ok, of 0 "[4, 5, 6 :: nat]" 8] t r s a b c
  show ?thesis by (simp add: numeral_3_eq_3 numeral_2_eq_2)
qed

text \<open>
  C3. When the enrichment of one of the selected movies fails, \<open>landingPageMovies\<close> fails:
  it returns no list, and its error is the error of a failed enrichment, and that of the
  failed one when no other error occurs in the batch.
\<close>

theorem landing_page_fails_whole_batch:
  assumes "getTrendingMovies env = Inr trending" "getTopRatedMovies env = Inr topRated"
    and "m \<in> set (fst (landing_selection env (rng_calls w) trending topRated))"
    and "snd (buildMovieObject env m) = Inl e"
  shows "\<exists>e'. fst (landingPageMovies env w) = Inl e' \<and>
           (\<exists>m' \<in> set (fst (landing_selection env (rng_calls w) trending topRated)).
               snd (buildMovieObject env m') = Inl e') \<and>
           ((\<forall>m' \<in> set (fst (landing_selection env (rng_calls w) trending topRated)).
               \<forall>e''. snd (buildMovieObject env m') = Inl e'' \<longrightarrow> e'' = e) \<longrightarrow> e' = e)"
proof -
  let ?sel = "fst (landing_selection env (rng_calls w) trending topRated)"
  let ?rs = "map (\<lambda>movie. snd (buildMovieObject env movie)) ?sel"
  from assms(3,4) have "Inl e \<in> set ?rs" by force
  moreover have "isl (Inl e :: error + jsobject)" by simp
  ultimately obtain e' where r: "promise_all (settle_order env) ?rs = Inl e'" and i: "Inl e' \<in> set ?rs"
    using promise_all_rejects by blast
  from i obtain m' where m': "m' \<in> set ?sel" "snd (buildMovieObject env m') = Inl e'"
    by auto
  from r have "fst (landingPageMovies env w) = Inl e'"
    by (simp add: landingPageMovies_eq [OF assms(1,2)])
  with m' show ?thesis by blast
qed

theorem landing_page_fails_whole_batch_witness:
  "getTrendingMovies flaky_env = Inr [sample_movie 11 ''Alien'', sample_movie 12 ''Brazil''] \<and>
   getTopRatedMovies flaky_env = Inr [sample_movie 13 ''Casablanca''] \<and>
   sample_movie 12 ''Brazil'' \<in> set (fst (landing_selection flaky_env (rng_calls idle)
                      [sample_movie 11 ''Alien'', sample_movie 12 ''Brazil'']
                      [sample_movie 13 ''Casablanca''])) \<and>
   snd (buildMovieObject flaky_env (sample_movie 12 ''Brazil'')) = Inl (UpstreamFailure ''network'') \<and>
   snd (buildMovieObject flaky_env (sample_movie 11 ''Alien'')) \<noteq> Inl (UpstreamFailure ''network'') \<and>
   fst (landingPageMovies flaky_env idle) = Inl (UpstreamFailure ''network'')"
proof -
  have t: "getTrendingMovies flaky_env = Inr [sample_movie 11 ''Alien'', sample_movie 12 ''Brazil'']"
    and r: "getTopRatedMovies flaky_env = Inr [sample_movie 13 ''Casablanca'']"
    by (simp_all add: flaky_env_def sample_env_def)
  have k: "rng_calls idle = 0" by (simp add: idle_def)
  have m: "sample_movie 12 ''Brazil'' \<in> set (fst (landing_selection flaky_env (rng_calls idle)
                      [sample_movie 11 ''Alien'', sample_movie 12 ''Brazil'']
                      [sample_movie 13 ''Casablanca'']))"
    unfolding k flaky_selection by simp
  have f: "snd (buildMovieObject flaky_env (sample_movie 12 ''Brazil'')) = Inl (UpstreamFailure ''network'')"
    by (simp add: eval_simps flaky_env_def)
  have a: "snd (buildMovieObject flaky_env (sample_movie 11 ''Alien'')) \<noteq> Inl (UpstreamFailure ''network'')"
    by (simp add: eval_simps flaky_env_def)
  have u: "\<forall>m' \<in> set (fst (landing_selection flaky_env (rng_calls idle)
                      [sample_movie 11 ''Alien'', sample_movie 12 ''Brazil'']
                      [sample_movie 13 ''Casablanca''])).
            \<forall>e''. snd (buildMovieObject flaky_env m') = Inl e'' \<longrightarrow> e'' = UpstreamFailure ''network''"
    unfolding k flaky_selection by (simp add: eval_simps flaky_env_def)
  from landing_page_fails_whole_batch [OF t r m f] u
  have "fst (landingPageMovies flaky_env idle) = Inl (UpstreamFailure ''network'')"
    by blast
  with t r m f a show ?thesis by blast
qed

text \<open>
  C7. The shuffle returns the elements it was given, each as often as it occurs there, so
  the ids after the shuffle are the ids before it; a sample consists of elements of its
  pool, no element taken more often than the pool has it; the movies selected for the
  landing page come from the two pools.
\<close>

theorem shuffle_rearranges:
  "mset (fst (shuffleArray env k xs)) = mset xs \<and>
   mset (map movie_id (fst (shuffleArray env k movies))) = mset (map movie_id movies) \<and>
   mset (fst (getRandomItems env k pool cnt)) \<subseteq># mset pool \<and>
   set (fst (getRandomItems env k pool cnt)) \<subseteq> set pool \<and>
   set (fst (landing_selection env k trending topRated)) \<subseteq> set trending \<union> set topRated"
proof -
  have "mset (map movie_id (fst (shuffleArray env k movies))) = mset (map movie_id movies)"
    using mset_shuffleArray [of env k movies] by (metis mset_map)
  moreover have "set (fst (landing_selection env k trending topRated)) \<subseteq> set trending \<union> set topRated"
  proof -
    have "set_mset (mset (fst (landing_selection env k trending topRated)))
            \<subseteq> set trending \<union> set topRated"
      unfolding mset_landing_selection using set_getRandomItems by fastforce
    then show ?thesis by simp
  qed
  ultimately show ?thesis
    by (simp add: mset_shuffleArray mset_getRandomItems_sub set_getRandomItems)
qed

theorem shuffle_rearranges_witness:
  "fst (shuffleArray sample_env 0 [sample_movie 1 ''A'', sample_movie 2 ''B'', sample_movie 3 ''C''])
     = [sample_movie 2 ''B'', sample_movie 1 ''A'', sample_movie 3 ''C''] \<and>
   mset (map movie_id [sample_movie 2 ''B'', sample_movie 1 ''A'', sample_movie 3 ''C''])
     = mset (map movie_id [sample_movie 1 ''A'', sample_movie 2 ''B'', sample_movie 3 ''C''])"
proof -
  have e: "fst (shuffleArray sample_env 0 [sample_movie 1 ''A'', sample_movie 2 ''B'', sample_movie 3 ''C''])
     = [sample_movie 2 ''B'', sample_movie 1 ''A'', sample_movie 3 ''C'']"
    by (simp add: engine_simps sample_env_def)
  from shuffle_rearranges [of sample_env 0
      "[sample_movie 1 ''A'', sample_movie 2 ''B'', sample_movie 3 ''C'']"
      "[sample_movie 1 ''A'', sample_movie 2 ''B'', sample_movie 3 ''C'']"] e
  show ?thesis by simp
qed

section \<open>The local store\<close>

lemma getRandomPopularMovies_eq:
  assumes "db_open_error env = None" "db_query_error env = None"
  shows "fst (getRandomPopularMovies env w) =
     promise_all (settle_order env)
       (map (\<lambda>i. createMovieObjectFromID env i)
          (map movie_id (take 10 (fst (sort_random env (rng_calls w)
             (select_top_popular (movies_table env)))))))"
  using assms by (simp add: getRandomPopularMovies_def Let_def split: prod.splits)

lemma getRandomPopularMovies_Inr:
  assumes "fst (getRandomPopularMovies env w) = Inr objs"
  shows "db_open_error env = None \<and> db_query_error env = None"
  using assms by (auto simp: getRandomPopularMovies_def Let_def split: option.splits)

lemma createMovieObjectFromID_id:
  assumes "lookup_by_id env" "createMovieObjectFromID env i = Inr obj"
  shows "get_prop obj ''id'' = Num (of_int i)"
proof -
  from assms(2) obtain movie where g: "getMovieById env i = Inr movie"
    and b: "snd (buildMovieObject env movie) = Inr obj"
    by (auto simp: createMovieObjectFromID_def split: sum.splits)
  from assms(1) g have "movie_id movie = i" by (simp add: lookup_by_id_def)
  with buildMovieObject_id [OF b] show ?thesis by simp
qed

lemma select_top_popular_highest:
  assumes "r \<in> set (select_top_popular table)"
    and "r' \<in># mset table - mset (select_top_popular table)"
  shows "popularity r' \<le> popularity r"
proof -
  let ?s = "sort_key (\<lambda>r. - popularity r) table"
  have "mset table = mset (take 1000 ?s) + mset (drop 1000 ?s)"
    by (metis append_take_drop_id mset_append mset_sort)
  then have "mset table - mset (select_top_popular table) = mset (drop 1000 ?s)"
    by (simp add: select_top_popular_def)
  with assms(2) have r': "r' \<in> set (drop 1000 ?s)" by simp
  from assms(1) have r: "r \<in> set (take 1000 ?s)" by (simp add: select_top_popular_def)
  have "sorted (map (\<lambda>r. - popularity r) (take 1000 ?s) @ map (\<lambda>r. - popularity r) (drop 1000 ?s))"
    by (metis sorted_sort_key map_append append_take_drop_id)
  then have "\<forall>x \<in> set (take 1000 ?s). \<forall>y \<in> set (drop 1000 ?s). - popularity x \<le> - popularity y"
    unfolding sorted_append by auto
  with r r' show ?thesis by auto
qed

lemma select_top_popular_sub:
  "length (select_top_popular table) \<le> 1000 \<and> mset (select_top_popular table) \<subseteq># mset table"
proof -
  let ?s = "sort_key (\<lambda>r. - popularity r) table"
  have "mset (take 1000 ?s) \<subseteq># mset ?s"
    by (metis append_take_drop_id mset_append mset_subset_eq_add_left)
  then show ?thesis by (simp add: select_top_popular_def)
qed

text \<open>
  C8. \<open>getRandomPopularMovies\<close> returns at most 10 objects, and the id of each is the id of
  a row that the query selected. The query selects at most 1000 rows of the table, and no
  row it leaves out is more popular than a row it selects. The catalog is taken to answer
  a lookup by id with the record of that id.
\<close>

theorem random_popular_from_top_rows:
  assumes "lookup_by_id env"
    and "fst (getRandomPopularMovies env w) = Inr objs"
  shows "length objs \<le> 10 \<and>
         (\<forall>obj \<in> set objs. \<exists>r \<in> set (select_top_popular (movies_table env)).
             get_prop obj ''id'' = Num (of_int (movie_id r))) \<and>
         length (select_top_popular (movies_table env)) \<le> 1000 \<and>
         mset (select_top_popular (movies_table env)) \<subseteq># mset (movies_table env) \<and>
         (\<forall>r \<in> set (select_top_popular (movies_table env)).
            \<forall>r' \<in># mset (movies_table env) - mset (select_top_popular (movies_table env)).
               popularity r' \<le> popularity r)"
proof -
  let ?top = "select_top_popular (movies_table env)"
  let ?ids = "map movie_id (take 10 (fst (sort_random env (rng_calls w) ?top)))"
  let ?rs = "map (\<lambda>i. createMovieObjectFromID env i) ?ids"
  from getRandomPopularMovies_Inr [OF assms(2)] assms(2)
  have "promise_all (settle_order env) ?rs = Inr objs"
    by (simp add: getRandomPopularMovies_eq)
  then have ok: "\<forall>r \<in> set ?rs. \<not> isl r" and objs: "objs = map projr ?rs"
    by (simp_all add: promise_all_Inr)
  have len: "length objs \<le> 10" by (simp add: objs)
  have ids: "\<exists>r \<in> set ?top. get_prop obj ''id'' = Num (of_int (movie_id r))"
    if "obj \<in> set objs" for obj
  proof -
    from that objs obtain i where i: "i \<in> set ?ids" and o: "obj = projr (createMovieObjectFromID env i)"
      by auto
    from ok i have "\<not> isl (createMovieObjectFromID env i)" by auto
    with o have "createMovieObjectFromID env i = Inr obj"
      by (cases "createMovieObjectFromID env i") auto
    then have p: "get_prop obj ''id'' = Num (of_int i)"
      using assms(1) by (rule createMovieObjectFromID_id [rotated])
    from i obtain r where "r \<in> set (take 10 (fst (sort_random env (rng_calls w) ?top)))"
      and ri: "movie_id r = i" by auto
    then have "r \<in> set (fst (sort_random env (rng_calls w) ?top))"
      by (meson in_set_takeD)
    then have "r \<in> set ?top" by (simp add: set_sort_random)
    with p ri show ?thesis by blast
  qed
  from len ids select_top_popular_sub [of "movies_table env"] select_top_popular_highest
  show ?thesis by blast
qed

lemmas store_simps =
  getRandomPopularMovies_def select_top_popular_def createMovieObjectFromID_def sort_random_def
  insertion_plan_def exchange_def comparator_def idle_def

theorem random_popular_from_top_rows_witness:
  "lookup_by_id sample_env \<and>
   fst (getRandomPopularMovies sample_env idle) =
     Inr (projr (fst (getRandomPopularMovies sample_env idle))) \<and>
   length (projr (fst (getRandomPopularMovies sample_env idle))) \<le> 10 \<and>
   map (\<lambda>obj. get_prop obj ''id'') (projr (fst (getRandomPopularMovies sample_env idle)))
     = [Num 21, Num 22] \<and>
   map movie_id (select_top_popular (movies_table sample_env)) = [22, 21] \<and>
   length (select_top_popular (movies_table sample_env)) \<le> 1000"
proof -
  have l: "lookup_by_id sample_env"
    by (simp add: lookup_by_id_def sample_env_def sample_movie_def)
  have r: "fst (getRandomPopularMovies sample_env idle) =
     Inr (projr (fst (getRandomPopularMovies sample_env idle)))"
    by (simp add: store_simps eval_simps)
  have i: "map (\<lambda>obj. get_prop obj ''id'') (projr (fst (getRandomPopularMovies sample_env idle)))
     = [Num 21, Num 22]"
    by (simp add: store_simps eval_simps)
  have s: "map movie_id (select_top_popular (movies_table sample_env)) = [22, 21]"
    by (simp add: select_top_popular_def sample_env_def sample_movie_def)
  from random_popular_from_top_rows [OF l r] l r i s show ?thesis by blast
qed

text \<open>
  C2, as amended. When opening the store fails or the query does not throw, as many
  connections are open after the call as before it, whatever the outcome of the
  enrichment.
\<close>

theorem connection_closed_after_query:
  assumes "db_open_error env \<noteq> None \<or> db_query_error env = None"
  shows "open_connections (snd (getRandomPopularMovies env w)) = open_connections w"
  using assms
  by (auto simp: getRandomPopularMovies_def Let_def split: option.splits prod.splits)

theorem connection_closed_after_query_witness:
  "db_query_error flaky_store = None \<and>
   fst (getRandomPopularMovies flaky_store idle) = Inl NotFound \<and>
   open_connections (snd (getRandomPopularMovies flaky_store idle)) = open_connections idle \<and>
   db_open_error closed_store_env = Some (StoreIOFailure ''unable to open database file'') \<and>
   db_query_error closed_store_env = Some (StoreIOFailure ''no such table: movies'') \<and>
   open_connections (snd (getRandomPopularMovies closed_store_env idle)) = open_connections idle"
proof -
  have q: "db_query_error flaky_store = None"
    by (simp add: flaky_store_def sample_env_def)
  have f: "fst (getRandomPopularMovies flaky_store idle) = Inl NotFound"
    by (simp add: store_simps eval_simps flaky_store_def)
  have p: "db_open_error closed_store_env = Some (StoreIOFailure ''unable to open database file'')"
    and p': "db_query_error closed_store_env = Some (StoreIOFailure ''no such table: movies'')"
    by (simp_all add: closed_store_env_def)
  from q have 1: "db_open_error flaky_store \<noteq> None \<or> db_query_error flaky_store = None"
    by simp
  from p have 2: "db_open_error closed_store_env \<noteq> None \<or> db_query_error closed_store_env = None"
    by simp
  from connection_closed_after_query [OF 1, of idle]
       connection_closed_after_query [OF 2, of idle] q f p p'
  show ?thesis by simp
qed

text \<open>
  C2, as stated, fails: when the query throws, the call ends with the connection it
  opened still open.
\<close>

theorem connection_leaks_when_query_throws:
  "fst (getRandomPopularMovies broken_store_env idle) = Inl (StoreIOFailure ''no such table: movies'') \<and>
   open_connections idle = 0 \<and>
   open_connections (snd (getRandomPopularMovies broken_store_env idle)) = 1"
  by (simp add: getRandomPopularMovies_def broken_store_env_def sample_env_def idle_def)

section \<open>The order of the two lookups\<close>

text \<open>
  C5, as amended. \<open>buildMovieObject\<close> awaits the trailer lookup, whose query is the title
  followed by \<open>trailer\<close>, and starts the lookup of the streaming provider, by the id of the
  record, after the trailer lookup has settled; when the trailer lookup fails, the
  provider lookup is not started.
\<close>

theorem lookups_run_in_sequence:
  "fst (buildMovieObject env movie) =
     [Started (GetYoutubeId (title movie @ '' trailer'')),
      Settled (GetYoutubeId (title movie @ '' trailer''))]
     @ (if isl (getYoutubeId env (title movie @ '' trailer'')) then []
        else [Started (GetStreamingProvider (movie_id movie)),
              Settled (GetStreamingProvider (movie_id movie))])"
  by (simp add: buildMovieObject_def Let_def split: sum.splits)

theorem lookups_run_in_sequence_witness:
  "fst (buildMovieObject flaky_env (sample_movie 12 ''Brazil'')) =
     [Started (GetYoutubeId ''Brazil trailer''), Settled (GetYoutubeId ''Brazil trailer'')] \<and>
   fst (buildMovieObject flaky_env (sample_movie 11 ''Alien'')) =
     [Started (GetYoutubeId ''Alien trailer''), Settled (GetYoutubeId ''Alien trailer''),
      Started (GetStreamingProvider 11), Settled (GetStreamingProvider 11)]"
proof -
  have b: "isl (getYoutubeId flaky_env (title (sample_movie 12 ''Brazil'') @ '' trailer''))"
    by (simp add: eval_simps flaky_env_def)
  have a: "\<not> isl (getYoutubeId flaky_env (title (sample_movie 11 ''Alien'') @ '' trailer''))"
    by (simp add: eval_simps flaky_env_def)
  from lookups_run_in_sequence [of flaky_env "sample_movie 12 ''Brazil''"]
       lookups_run_in_sequence [of flaky_env "sample_movie 11 ''Alien''"] a b
  show ?thesis by (simp add: sample_movie_def)
qed

text \<open>
  C5, as stated, fails: the provider lookup is started only after the trailer lookup has
  settled.
\<close>

theorem lookups_not_concurrent:
  "fst (buildMovieObject sample_env (sample_movie 5 ''Solaris'')) =
     [Started (GetYoutubeId ''Solaris trailer''), Settled (GetYoutubeId ''Solaris trailer''),
      Started (GetStreamingProvider 5), Settled (GetStreamingProvider 5)] \<and>
   \<not> issued_concurrently (fst (buildMovieObject sample_env (sample_movie 5 ''Solaris'')))"
  by (simp add: eval_simps issued_concurrently_def)

section \<open>The distribution of the shuffle\<close>

lemma run_plan_positions:
  "fst (run_plan p rnd k xs) = map ((!) xs) (fst (run_plan p rnd k [0..<length xs]))"
proof -
  have "run_plan p rnd k (map ((!) xs) [0..<length xs])
          = (map ((!) xs) (fst (run_plan p rnd k [0..<length xs])),
             snd (run_plan p rnd k [0..<length xs]))"
    by (rule run_plan_map)
  then show ?thesis by (simp add: map_nth)
qed

lemma sort_random_positions:
  "\<exists>is. mset is = mset [0..<length xs] \<and> fst (sort_random env k xs) = map ((!) xs) is"
proof -
  let ?is = "fst (run_plan (array_sort env (length xs)) (math_random env) k [0..<length xs])"
  have "mset ?is = mset [0..<length xs]" by (rule mset_run_plan)
  moreover have "fst (sort_random env k xs) = map ((!) xs) ?is"
    unfolding sort_random_def by (rule run_plan_positions)
  ultimately show ?thesis by blast
qed

text \<open>
  C6, as amended. A sample is drawn without replacement: it consists of the elements at
  \<open>min(count, |pool|)\<close> different positions of the pool. The shuffle returns the elements
  of its input in some order of the positions. Which order is decided by the sort of the
  engine from the answers of the comparator.
\<close>

theorem sample_without_replacement:
  "(\<exists>is. distinct is \<and> set is \<subseteq> {..<length pool} \<and> length is = min cnt (length pool) \<and>
          fst (getRandomItems env k pool cnt) = map ((!) pool) is) \<and>
   (\<exists>is. mset is = mset [0..<length xs] \<and> fst (shuffleArray env k' xs) = map ((!) xs) is)"
proof
  from sort_random_positions [of pool env k] obtain js where
    m: "mset js = mset [0..<length pool]" and s: "fst (sort_random env k pool) = map ((!) pool) js"
    by blast
  from m have d: "distinct js" by (metis distinct_upt mset_eq_imp_distinct_iff)
  from m have e: "set js = {..<length pool}" by (metis atLeast_upt mset_eq_setD)
  from m have l: "length js = length pool" by (metis length_upt mset_eq_length minus_nat.diff_0)
  have "distinct (take cnt js)" using d by simp
  moreover have "set (take cnt js) \<subseteq> {..<length pool}"
    using e by (metis set_take_subset)
  moreover have "length (take cnt js) = min cnt (length pool)"
    using l by (simp add: min.commute)
  moreover have "fst (getRandomItems env k pool cnt) = map ((!) pool) (take cnt js)"
    by (simp add: getRandomItems_take s take_map)
  ultimately show "\<exists>is. distinct is \<and> set is \<subseteq> {..<length pool} \<and>
      length is = min cnt (length pool) \<and> fst (getRandomItems env k pool cnt) = map ((!) pool) is"
    by blast
next
  show "\<exists>is. mset is = mset [0..<length xs] \<and> fst (shuffleArray env k' xs) = map ((!) xs) is"
    unfolding shuffleArray_def by (rule sort_random_positions)
qed

theorem sample_without_replacement_witness:
  "(\<exists>is. distinct is \<and> set is \<subseteq> {..<3} \<and> length is = 2 \<and>
          fst (getRandomItems sample_env 0 [4, 5, 6 :: nat] 2) = map ((!) [4, 5, 6]) is) \<and>
   fst (getRandomItems sample_env 0 [4, 5, 6 :: nat] 2) = [5, 4]"
proof -
  have "fst (getRandomItems sample_env 0 [4, 5, 6 :: nat] 2) = [5, 4]"
    by (simp add: engine_simps sample_env_def)
  with sample_without_replacement [where pool = "[4, 5, 6 :: nat]" and cnt = 2
      and env = sample_env and k = 0 and xs = "[4, 5, 6 :: nat]" and k' = 0]
  show ?thesis by (simp add: numeral_3_eq_3 numeral_2_eq_2)
qed

text \<open>
  C6, as stated, fails. With the insertion sort as the engine's sort and the three
  elements \<open>1, 2, 3\<close>, two of the eight equally likely ways the comparator answers leave
  the sequence as it is: a probability of \<open>1/4\<close>, where a uniform shuffle has \<open>1/6\<close>.
  And three of the eight put the element \<open>1\<close> first, so a sample of one element is \<open>1\<close>
  with probability \<open>3/8\<close>, where a uniform sample has \<open>1/3\<close>.
\<close>

theorem shuffle_not_uniform:
  "outcome_count sample_env 3 [1, 2, 3 :: nat] [1, 2, 3] = 2 \<and>
   \<not> uniform_shuffle_at sample_env 3 [1, 2, 3 :: nat] [1, 2, 3] \<and>
   count_list (sample_outcomes sample_env 3 [1, 2, 3 :: nat] 1) [1] = 3 \<and>
   \<not> uniform_sample_at sample_env 3 [1, 2, 3 :: nat] 1 [1]"
  by (simp add: uniform_shuffle_at_def outcome_count_def shuffle_outcomes_def fair_draws_def
      uniform_sample_at_def sample_outcomes_def getRandomItems_def
      draws_of_def shuffleArray_def sort_random_def insertion_plan_def exchange_def
      comparator_def sample_env_def eval_nat_numeral fact_numeral)

text \<open>
  No engine gives a uniform shuffle of three or more elements from a bounded number of
  fair answers: every probability is then a multiple of \<open>1 / 2 ^ L\<close>, and
  \<open>1 / (length xs)!\<close> is none.
\<close>

lemma two_power_mod_three: "(2 :: nat) ^ L mod 3 \<noteq> 0"
proof (induction L)
  case 0
  then show ?case by simp
next
  case (Suc L)
  have "(2 :: nat) ^ Suc L mod 3 = (2 * (2 ^ L mod 3)) mod 3"
    by (simp add: mod_mult_right_eq)
  moreover have "2 ^ L mod 3 = (1::nat) \<or> 2 ^ L mod 3 = (2::nat)"
    using Suc.IH by (metis One_nat_def Suc_1 less_Suc_eq less_one mod_less_divisor numeral_3_eq_3 zero_less_Suc)
  ultimately show ?case by auto
qed

lemma no_engine_shuffles_uniformly:
  assumes "3 \<le> length xs"
  shows "\<not> uniform_shuffle_at env L xs ys"
proof
  assume "uniform_shuffle_at env L xs ys"
  then have e: "fact (length xs) * outcome_count env L xs ys = (2 :: nat) ^ L"
    by (simp add: uniform_shuffle_at_def)
  have "(3 :: nat) dvd fact (length xs)"
    using assms by (simp add: dvd_fact)
  then have "(3 :: nat) dvd 2 ^ L"
    using e by (metis dvd_mult2)
  then show False
    using two_power_mod_three [of L] by (simp add: dvd_eq_mod_eq_0)
qed

end
